theory Spec2Isabelle
  imports Complex_Main "HOL-Library.Word"
begin

unbundle bit_operations_syntax

section \<open>The scrcpy WebSocket bridge (\<open>scrcpy_ws_bridge.py\<close>)\<close>

text \<open>
  A shallow embedding of the parts of \<open>ScrcpyBridge\<close> that frame the H.264 byte stream,
  classify the framed units, replay cached units to a joining viewer, fan units out, turn
  pointer events into device commands and dispatch inbound control messages.

  Bytes are 8-bit words, Python's unbounded integers are \<open>int\<close>, its floats are
  idealised as \<open>real\<close> (no rounding), \<open>time()\<close> readings are explicit inputs, and what
  the source sends over a connection or to the device shell is returned as a value.
\<close>

subsection \<open>NAL framing: \<open>_extract_nal_units\<close>\<close>

type_synonym byte = "8 word"

text \<open>Python's \<open>buf[a:b]\<close> for non-negative \<open>a\<close> and \<open>b\<close>.\<close>

definition py_slice :: "'a list \<Rightarrow> nat \<Rightarrow> nat \<Rightarrow> 'a list" where
  "py_slice buf a b = drop a (take b buf)"

text \<open>
  The scan loop of \<open>_extract_nal_units\<close>: \<open>while i < len(buf) - 3\<close>, testing the 4-byte
  start code first. Each entry is (position, start code length), in the order appended.
\<close>

function start_positions :: "byte list \<Rightarrow> nat \<Rightarrow> (nat \<times> nat) list" where
  "start_positions buf i =
     (if i + 3 < length buf then
        (if py_slice buf i (i + 4) = [0, 0, 0, 1] then (i, 4) # start_positions buf (i + 4)
         else if py_slice buf i (i + 3) = [0, 0, 1] then (i, 3) # start_positions buf (i + 3)
         else start_positions buf (i + 1))
      else [])"
  by pat_completeness auto
termination
  by (relation "measure (\<lambda>(buf, i). length buf - i)") auto

declare start_positions.simps [simp del]

text \<open>
  \<open>_extract_nal_units\<close> on the buffer \<open>buf\<close>: the units returned and the buffer kept.
  With fewer than two start codes nothing is returned and the buffer is left as it is.
\<close>

definition extract_nal_units :: "byte list \<Rightarrow> byte list list \<times> byte list" where
  "extract_nal_units buf =
     (let sp = start_positions buf 0 in
      if length sp < 2 then ([], buf)
      else (map (\<lambda>idx. py_slice buf (fst (sp ! idx)) (fst (sp ! (idx + 1)))) [0..<length sp - 1],
            drop (fst (last sp)) buf))"

text \<open>
  The framer fed a list of received chunks, as lines 751-755 of \<open>_video_stream_loop\<close> do
  for each read: extend the buffer, extract. The result is every unit yielded, in order,
  and the final buffer.
\<close>

fun feed :: "byte list \<Rightarrow> byte list list \<Rightarrow> byte list list \<times> byte list" where
  "feed buf [] = ([], buf)"
| "feed buf (data # rest) =
     (case extract_nal_units (buf @ data) of
        (units, buf') \<Rightarrow> (case feed buf' rest of (more, buf'') \<Rightarrow> (units @ more, buf'')))"

text \<open>
  The byte spans between consecutive entries of a list of start positions: what the
  \<open>for idx in range(len(start_positions) - 1)\<close> loop collects.
\<close>

fun spans :: "byte list \<Rightarrow> (nat \<times> nat) list \<Rightarrow> byte list list" where
  "spans buf (a # b # rest) = py_slice buf (fst a) (fst b) # spans buf (b # rest)"
| "spans buf rest = []"

subsection \<open>Unit types: \<open>_get_nal_type\<close>, \<open>_is_sps\<close>, \<open>_is_pps\<close>, \<open>_is_keyframe\<close>\<close>

definition get_nal_type :: "byte list \<Rightarrow> int" where
  "get_nal_type data =
     (if length data < 5 then - 1
      else if py_slice data 0 4 = [0, 0, 0, 1] then uint (data ! 4 AND 0x1F)
      else if py_slice data 0 3 = [0, 0, 1] then uint (data ! 3 AND 0x1F)
      else - 1)"

definition is_sps :: "byte list \<Rightarrow> bool" where
  "is_sps data = (get_nal_type data = 7)"

definition is_pps :: "byte list \<Rightarrow> bool" where
  "is_pps data = (get_nal_type data = 8)"

definition is_keyframe :: "byte list \<Rightarrow> bool" where
  "is_keyframe data = (get_nal_type data = 5)"


subsection \<open>Bridge state\<close>

record DeviceInfo =
  name :: string
  width :: int
  height :: int
  serial :: string

record TouchState =
  start_pos :: "(real \<times> real) option"
  start_time :: real

text \<open>
  A decoded JSON value; an object is the dictionary \<open>json.loads\<close> builds. \<open>JNum r\<close> is a
  decoded number, an \<open>int\<close> or a \<open>float\<close>, with its exact value \<open>r\<close>. A \<open>float\<close> is a
  double, whose magnitude is at most \<open>2 ^ 1024 - 2 ^ 971\<close>, so a number of larger
  magnitude is an \<open>int\<close>.
\<close>

datatype json =
  JNull | JBool bool | JNum real | JStr string | JArr "json list" | JObj "(string \<times> json) list"

text \<open>What a viewer's connection is sent.\<close>

datatype message = Device_info_msg DeviceInfo | Binary "byte list" | Session_cleared

text \<open>What is run on the device through \<open>device.shell\<close>.\<close>

datatype command =
  Tap int int | Swipe int int int int int | Key_event json

type_synonym viewer = nat

text \<open>
  The fields of \<open>ScrcpyBridge\<close> the modelled methods read or write. \<open>wire\<close> is not a
  field of the source: it records, per connection, the messages \<open>websocket.send\<close>
  delivered, oldest first.
\<close>

record bridge =
  device_info :: "DeviceInfo option"
  clients :: "viewer set"
  sps :: "byte list option"
  pps :: "byte list option"
  last_keyframe :: "byte list option"
  nal_buffer :: "byte list"
  physical_width :: int
  physical_height :: int
  touch_states :: "viewer \<rightharpoonup> TouchState"
  chat_cancelled :: bool
  wire :: "viewer \<Rightarrow> message list"

text \<open>The bridge after \<open>__init__\<close> and \<open>_connect_to_server\<close>.\<close>

definition connected_bridge :: "DeviceInfo \<Rightarrow> bridge" where
  "connected_bridge d =
     \<lparr>device_info = Some d, clients = {}, sps = None, pps = None, last_keyframe = None,
      nal_buffer = [], physical_width = 0, physical_height = 0, touch_states = Map.empty,
      chat_cancelled = False, wire = (\<lambda>_. [])\<rparr>"

text \<open>
  What the surroundings decide during one call: the two \<open>time()\<close> readings of
  \<open>_send_touch\<close> (at the staleness check, and when a position is recorded or a duration
  measured), the result of \<open>_query_physical_screen_size\<close>, whether the agent calls
  raise, whether the interpreter hashes slice objects (CPython 3.12 and later), and
  whether the peer has closed the connection.
\<close>

record world =
  clock_check :: real
  clock_act :: real
  wm_size :: "int \<times> int"
  agent_fails :: bool
  hashable_slices :: bool
  peer_closed :: bool

subsection \<open>Joining and leaving: \<open>_handle_client\<close>\<close>

definition deliver :: "bridge \<Rightarrow> viewer \<Rightarrow> message list \<Rightarrow> bridge" where
  "deliver s ws ms = s\<lparr>wire := (wire s)(ws := wire s ws @ ms)\<rparr>"

text \<open>\<open>if self._sps:\<close> and its siblings: \<open>None\<close> and empty bytes are both false.\<close>

definition cached :: "byte list option \<Rightarrow> message list" where
  "cached c = (case c of None \<Rightarrow> [] | Some u \<Rightarrow> if u = [] then [] else [Binary u])"

text \<open>The sends of lines 275-295, in order.\<close>

definition catch_up :: "bridge \<Rightarrow> message list" where
  "catch_up s =
     (case device_info s of None \<Rightarrow> [] | Some d \<Rightarrow> [Device_info_msg d])
     @ cached (sps s) @ cached (pps s) @ cached (last_keyframe s)"

text \<open>The \<open>finally\<close> block of \<open>_handle_client\<close>.\<close>

definition client_cleanup :: "bridge \<Rightarrow> viewer \<Rightarrow> bridge" where
  "client_cleanup s ws =
     s\<lparr>clients := clients s - {ws}, touch_states := (touch_states s)(ws := None)\<rparr>"

text \<open>
  Lines 269-295 run without another task in between: the viewer is added to
  \<open>clients\<close> first, then sent the catch-up messages. On a connection the peer has
  already closed the first send (or else the message iteration) raises
  \<open>ConnectionClosed\<close> and the \<open>finally\<close> block runs.
\<close>

definition client_join :: "world \<Rightarrow> bridge \<Rightarrow> viewer \<Rightarrow> bridge" where
  "client_join w s ws =
     (let s1 = s\<lparr>clients := insert ws (clients s)\<rparr> in
      if peer_closed w then client_cleanup s1 ws else deliver s1 ws (catch_up s1))"

subsection \<open>Fan-out: the body of \<open>_video_stream_loop\<close>\<close>

text \<open>
  Lines 767-789 for one unit. \<open>failing\<close> is the set of viewers whose \<open>send\<close> raises;
  \<open>gather(..., return_exceptions=True)\<close> collects the exceptions and the loop over the
  results only logs them.
\<close>

definition process_nal_unit :: "viewer set \<Rightarrow> bridge \<Rightarrow> byte list \<Rightarrow> bridge" where
  "process_nal_unit failing s u =
     (let s1 = (if is_sps u then s\<lparr>sps := Some u\<rparr> else s);
          s2 = (if is_pps u then s1\<lparr>pps := Some u\<rparr> else s1);
          s3 = (if is_keyframe u then s2\<lparr>last_keyframe := Some u\<rparr> else s2)
      in s3\<lparr>wire := (\<lambda>c. if c \<in> clients s3 \<and> c \<notin> failing
                            then wire s3 c @ [Binary u] else wire s3 c)\<rparr>)"

text \<open>
  The \<open>for nal_unit in nal_units\<close> loop, with the counter \<open>nal_count\<close>; \<open>fl k\<close> is the
  set of viewers to which sending NAL number \<open>k\<close> fails.
\<close>

fun process_nal_units ::
  "(nat \<Rightarrow> viewer set) \<Rightarrow> bridge \<times> nat \<Rightarrow> byte list list \<Rightarrow> bridge \<times> nat" where
  "process_nal_units fl (s, nal_count) [] = (s, nal_count)"
| "process_nal_units fl (s, nal_count) (u # us) =
     process_nal_units fl (process_nal_unit (fl (Suc nal_count)) s u, Suc nal_count) us"


subsection \<open>Gestures: \<open>_send_touch\<close>\<close>

definition SWIPE_DISTANCE_THRESHOLD :: real where
  "SWIPE_DISTANCE_THRESHOLD = 3 / 100"

definition SWIPE_VELOCITY_THRESHOLD :: real where
  "SWIPE_VELOCITY_THRESHOLD = 3 / 10"

definition SWIPE_MAX_TAP_DURATION :: real where
  "SWIPE_MAX_TAP_DURATION = 4 / 10"

definition TOUCH_TIMEOUT :: real where
  "TOUCH_TIMEOUT = 5"

text \<open>Python's \<open>int(v)\<close> on a float: truncation towards zero.\<close>

definition py_int :: "real \<Rightarrow> int" where
  "py_int v = (if 0 \<le> v then \<lfloor>v\<rfloor> else \<lceil>v\<rceil>)"

text \<open>A write through the \<open>TouchState\<close> object held in \<open>_touch_states[client]\<close>.\<close>

definition store :: "bridge \<Rightarrow> viewer \<Rightarrow> TouchState \<Rightarrow> bridge" where
  "store s client t = s\<lparr>touch_states := (touch_states s)(client \<mapsto> t)\<rparr>"

text \<open>
  \<open>_send_touch\<close>: the new state and the commands passed to \<open>device.shell\<close> (an exception
  of the shell call is caught and logged there, so the call returns either way).
  \<open>action\<close> is whatever JSON value the message carried.

  The arithmetic here is exact. The code's doubles agree with it on the range check
  and on the staleness check (the bounds 0, 1 and 5 are doubles, and two clock
  readings within a factor of two of each other subtract without rounding), but they
  round in the products, the square root and the quotient of the pointer-up branch:
  there rounding can move a pixel position by one and can change the decision for a
  pair within rounding of a threshold. What is proved below about that branch is
  therefore proved for concrete pairs that are far from every threshold.
\<close>

definition send_touch ::
  "world \<Rightarrow> bridge \<Rightarrow> viewer \<Rightarrow> json \<Rightarrow> real \<Rightarrow> real \<Rightarrow> bridge \<times> command list" where
  "send_touch w s client action x y =
     (if device_info s = None then (s, [])
      else if 0 \<le> x \<and> x \<le> 1 \<and> 0 \<le> y \<and> y \<le> 1 then
        (let s1 = (if physical_width s = 0
                   then s\<lparr>physical_width := fst (wm_size w), physical_height := snd (wm_size w)\<rparr>
                   else s);
             touch_state = (case touch_states s1 client of
                              None \<Rightarrow> \<lparr>start_pos = None, start_time = 0\<rparr>
                            | Some t \<Rightarrow> t);
             s2 = store s1 client touch_state
         in if (case start_pos touch_state of
                  None \<Rightarrow> False
                | Some p \<Rightarrow> clock_check w - start_time touch_state > TOUCH_TIMEOUT)
            then (store s2 client (touch_state\<lparr>start_pos := None\<rparr>), [])
            else if action = JStr ''down''
            then (store s2 client (touch_state\<lparr>start_pos := Some (x, y), start_time := clock_act w\<rparr>), [])
            else if action = JStr ''move'' then (s2, [])
            else if action = JStr ''up'' then
              (case start_pos touch_state of
                 None \<Rightarrow> (s2, [])
               | Some (start_x, start_y) \<Rightarrow>
                   (let dx = x - start_x;
                        dy = y - start_y;
                        distance = sqrt (dx * dx + dy * dy);
                        duration = clock_act w - start_time touch_state;
                        velocity = (if duration > 0 then distance / duration else 0);
                        abs_start_x = py_int (start_x * of_int (physical_width s2));
                        abs_start_y = py_int (start_y * of_int (physical_height s2));
                        abs_end_x = py_int (x * of_int (physical_width s2));
                        abs_end_y = py_int (y * of_int (physical_height s2));
                        is_swipe = (velocity > SWIPE_VELOCITY_THRESHOLD
                                    \<or> (distance > SWIPE_DISTANCE_THRESHOLD
                                        \<and> duration > SWIPE_MAX_TAP_DURATION))
                    in (store s2 client (touch_state\<lparr>start_pos := None\<rparr>),
                        [if is_swipe then Swipe abs_start_x abs_start_y abs_end_x abs_end_y 200
                         else Tap abs_end_x abs_end_y])))
            else (s2, []))
      else (s, []))"

subsection \<open>Inbound messages: \<open>_handle_control_message\<close>\<close>

datatype exn =
  JSONDecodeError | KeyError | AttributeError | TypeError | ValueError | OverflowError
  | AgentError | ConnectionClosed

datatype effect =
  Command command | Start_chat json | Interrupt_agent | Clear_session | Warning exn

text \<open>
  The format specification \<open>:.3f\<close> applied to a decoded value: booleans and numbers
  format, except that an \<open>int\<close> is first converted to a double and one that rounds
  beyond the largest double (magnitude \<open>2 ^ 1024 - 2 ^ 970\<close> or more) raises
  \<open>OverflowError\<close>; a string raises \<open>ValueError\<close>, everything else \<open>TypeError\<close>.
\<close>

fun format_3f :: "json \<Rightarrow> exn option" where
  "format_3f (JNum r) = (if 2 ^ 1024 - 2 ^ 970 \<le> \<bar>r\<bar> then Some OverflowError else None)"
| "format_3f (JBool b) = None"
| "format_3f (JStr t) = Some ValueError"
| "format_3f v = Some TypeError"

fun as_number :: "json \<Rightarrow> real" where
  "as_number (JNum r) = r"
| "as_number (JBool b) = (if b then 1 else 0)"
| "as_number v = 0"

text \<open>\<open>user_message[:50]\<close>: strings and lists can be sliced.\<close>

fun subscript_50 :: "world \<Rightarrow> json \<Rightarrow> exn option" where
  "subscript_50 w (JStr t) = None"
| "subscript_50 w (JArr vs) = None"
| "subscript_50 w (JObj d) = Some (if hashable_slices w then KeyError else TypeError)"
| "subscript_50 w v = Some TypeError"

text \<open>
  The body of the \<open>try\<close>. \<open>Inl (e, s)\<close> is exception \<open>e\<close> raised in state \<open>s\<close>;
  \<open>Inr (s, es)\<close> is a normal return with the device commands issued and the tasks
  started.
\<close>

definition dispatch ::
  "world \<Rightarrow> bridge \<Rightarrow> viewer \<Rightarrow> json \<Rightarrow> exn \<times> bridge + bridge \<times> effect list" where
  "dispatch w s client data =
     (case data of
        JObj d \<Rightarrow>
          (let msg_type = map_of d ''type'' in
           if msg_type = Some (JStr ''touch'') then
             (case map_of d ''action'' of None \<Rightarrow> Inl (KeyError, s) | Some action \<Rightarrow>
              case map_of d ''x'' of None \<Rightarrow> Inl (KeyError, s) | Some xv \<Rightarrow>
              case format_3f xv of Some e \<Rightarrow> Inl (e, s) | None \<Rightarrow>
              case map_of d ''y'' of None \<Rightarrow> Inl (KeyError, s) | Some yv \<Rightarrow>
              case format_3f yv of Some e \<Rightarrow> Inl (e, s) | None \<Rightarrow>
              case send_touch w s client action (as_number xv) (as_number yv) of
                (s', cmds) \<Rightarrow> Inr (s', map Command cmds))
           else if msg_type = Some (JStr ''key'') then
             (case map_of d ''keycode'' of None \<Rightarrow> Inl (KeyError, s) | Some keycode \<Rightarrow>
              case map_of d ''action'' of None \<Rightarrow> Inl (KeyError, s) | Some action \<Rightarrow>
                Inr (s, [Command (Key_event keycode)]))
           else if msg_type = Some (JStr ''back'') then Inr (s, [Command (Key_event (JNum 4))])
           else if msg_type = Some (JStr ''home'') then Inr (s, [Command (Key_event (JNum 3))])
           else if msg_type = Some (JStr ''recents'') then
             Inr (s, [Command (Key_event (JNum 187))])
           else if msg_type = Some (JStr ''chat'') then
             (let user_message = (case map_of d ''message'' of None \<Rightarrow> JStr [] | Some m \<Rightarrow> m) in
              case subscript_50 w user_message of
                Some e \<Rightarrow> Inl (e, s)
              | None \<Rightarrow> Inr (s, [Start_chat user_message]))
           else if msg_type = Some (JStr ''cancel'') then
             (if agent_fails w then Inl (AgentError, s\<lparr>chat_cancelled := True\<rparr>)
              else Inr (s\<lparr>chat_cancelled := True\<rparr>, [Interrupt_agent]))
           else if msg_type = Some (JStr ''new_session'') then
             (if agent_fails w then Inl (AgentError, s)
              else if peer_closed w then Inl (ConnectionClosed, s)
              else Inr (deliver s client [Session_cleared], [Clear_session]))
           else Inr (s, []))
      | _ \<Rightarrow> Inl (AttributeError, s))"

text \<open>
  \<open>_handle_control_message\<close> on the result of \<open>json.loads\<close> (\<open>None\<close> when it raises
  \<open>JSONDecodeError\<close>): the handler catches \<open>JSONDecodeError\<close> and \<open>KeyError\<close>, logs a
  warning and returns; any other exception leaves the handler.
\<close>

definition handle_control_message ::
  "world \<Rightarrow> bridge \<Rightarrow> viewer \<Rightarrow> json option \<Rightarrow> exn \<times> bridge + bridge \<times> effect list" where
  "handle_control_message w s client message =
     (case message of
        None \<Rightarrow> Inr (s, [Warning JSONDecodeError])
      | Some data \<Rightarrow>
          (case dispatch w s client data of
             Inl (e, s') \<Rightarrow>
               if e = JSONDecodeError \<or> e = KeyError then Inr (s', [Warning e]) else Inl (e, s')
           | Inr r \<Rightarrow> Inr r))"

text \<open>
  The \<open>async for message in websocket\<close> loop of \<open>_handle_client\<close> with its \<open>except\<close> and
  \<open>finally\<close>: the messages are handled in turn until the peer closes the connection
  (the end of the list, or \<open>ConnectionClosed\<close>) or the handler raises. The first
  component is the exception that ended the connection handler, if any; the messages
  after it are never handled.
\<close>

fun client_messages ::
  "bridge \<Rightarrow> viewer \<Rightarrow> (world \<times> json option) list \<Rightarrow> exn option \<times> bridge \<times> effect list" where
  "client_messages s ws [] = (None, client_cleanup s ws, [])"
| "client_messages s ws ((w, m) # rest) =
     (case handle_control_message w s ws m of
        Inl (e, s') \<Rightarrow>
          (if e = ConnectionClosed then None else Some e, client_cleanup s' ws, [])
      | Inr (s', es) \<Rightarrow>
          (case client_messages s' ws rest of (r, s'', es') \<Rightarrow> (r, s'', es @ es')))"

subsection \<open>Concrete surroundings for the worked examples\<close>

text \<open>
  Quiet surroundings in which every clock reading of the call is \<open>t\<close> and the device
  reports a 1080x2340 screen, and a device record.
\<close>

definition world_at :: "real \<Rightarrow> world" where
  "world_at t =
     \<lparr>clock_check = t, clock_act = t, wm_size = (1080, 2340), agent_fails = False,
      hashable_slices = False, peer_closed = False\<rparr>"

definition pixel :: DeviceInfo where
  "pixel = \<lparr>name = ''Pixel'', width = 1080, height = 2340, serial = ''emulator-5554''\<rparr>"

section \<open>Properties\<close>

subsection \<open>Framing\<close>

text \<open>
  C1. A byte sequence with two start codes should yield one unit however it is split.
  The scan stops at \<open>len(buf) - 3\<close>, so a 3-byte start code in the last three bytes of
  the buffer is not found: the seven bytes \<open>00 00 01 65 00 00 01\<close> hold a start code at
  offsets 0 and 4, yet nothing is yielded, whether they arrive in one read or in two.
  A 4-byte start code in the same place is found and the unit before it is yielded;
  the 3-byte one is found only once one more byte has arrived.
\<close>

theorem trailing_start_code_not_framed:
  "py_slice [0, 0, 1, 0x65, 0, 0, 1 :: byte] 0 3 = [0, 0, 1]
     \<and> py_slice [0, 0, 1, 0x65, 0, 0, 1 :: byte] 4 7 = [0, 0, 1]
     \<and> feed [] [[0, 0, 1, 0x65, 0, 0, 1]] = ([], [0, 0, 1, 0x65, 0, 0, 1])
     \<and> feed [] [[0, 0, 1, 0x65], [0, 0, 1]] = ([], [0, 0, 1, 0x65, 0, 0, 1])
     \<and> feed [] [[0, 0, 1, 0x65, 0, 0, 0, 1]] = ([[0, 0, 1, 0x65]], [0, 0, 0, 1])
     \<and> feed [] [[0, 0, 1, 0x65, 0, 0, 1], [0x41]] = ([[0, 0, 1, 0x65]], [0, 0, 1, 0x41])"
  by code_simp

text \<open>
  Apart from that, framing does not depend on how the bytes are split into reads: fed
  chunk by chunk from a buffer holding fewer than two found start codes, the framer
  yields what one extraction from all the bytes yields, namely the spans between the
  consecutive start codes the scan finds, each span starting with its start code, and it
  keeps the bytes from the last found start code on.
\<close>

lemma spans_index:
  "map (\<lambda>idx. py_slice buf (fst (sp ! idx)) (fst (sp ! (idx + 1)))) [0..<length sp - 1]
     = spans buf sp"
proof (induction buf sp rule: spans.induct)
  case (1 buf a b rest)
  have "[0..<length (a # b # rest) - 1] = 0 # map Suc [0..<length (b # rest) - 1]"
    by (simp add: upt_conv_Cons map_Suc_upt del: upt_Suc)
  then show ?case
    using "1.IH" by (simp add: comp_def del: upt_Suc)
qed simp_all

lemma extract_nal_units_spans:
  "extract_nal_units buf =
     (if length (start_positions buf 0) < 2 then ([], buf)
      else (spans buf (start_positions buf 0), drop (fst (last (start_positions buf 0))) buf))"
  using spans_index [of buf "start_positions buf 0"]
  by (simp add: extract_nal_units_def Let_def)

lemma spans_append:
  "spans buf (xs @ y # zs) = spans buf (xs @ [y]) @ spans buf (y # zs)"
proof (induction xs)
  case Nil
  show ?case by simp
next
  case (Cons a xs)
  then show ?case by (cases xs) simp_all
qed

lemma start_positions_bounds:
  "(p, l) \<in> set (start_positions buf i) \<Longrightarrow> i \<le> p \<and> p + 3 < length buf"
proof (induction buf i rule: start_positions.induct)
  case (1 buf i)
  show ?case
  proof (cases "i + 3 < length buf")
    case False
    with "1.prems" show ?thesis by (simp add: start_positions.simps [of buf i])
  next
    case True
    show ?thesis
      using "1.prems" "1.IH" True
      by (subst (asm) start_positions.simps) (auto split: if_splits)
  qed
qed

lemma start_positions_prefix:
  "\<exists>more. start_positions (buf @ ys) i = start_positions buf i @ more"
proof (induction buf i rule: start_positions.induct)
  case (1 buf i)
  show ?case
  proof (cases "i + 3 < length buf")
    case False
    then show ?thesis by (simp add: start_positions.simps [of buf i])
  next
    case True
    then have s4: "py_slice (buf @ ys) i (i + 4) = py_slice buf i (i + 4)"
      and s3: "py_slice (buf @ ys) i (i + 3) = py_slice buf i (i + 3)"
      by (simp_all add: py_slice_def)
    show ?thesis
      using "1.IH" True s4 s3
      by (subst start_positions.simps, subst (2) start_positions.simps) auto
  qed
qed

lemma start_positions_resume:
  "start_positions buf i = pre @ (p, l) # post \<Longrightarrow> start_positions buf p = (p, l) # post"
proof (induction buf i arbitrary: pre rule: start_positions.induct)
  case (1 buf i)
  show ?case
  proof (cases "i + 3 < length buf")
    case False
    with "1.prems" show ?thesis by (simp add: start_positions.simps [of buf i])
  next
    case True
    note inb = True
    show ?thesis
    proof (cases "py_slice buf i (i + 4) = [0, 0, 0, 1]")
      case True
      then have e: "start_positions buf i = (i, 4) # start_positions buf (i + 4)"
        using inb by (simp add: start_positions.simps [of buf i])
      show ?thesis
      proof (cases pre)
        case Nil
        with e "1.prems" show ?thesis by simp
      next
        case (Cons a pre')
        with e "1.prems" have "start_positions buf (i + 4) = pre' @ (p, l) # post" by simp
        then show ?thesis using "1.IH"(1) [OF inb True] by simp
      qed
    next
      case False
      note n4 = False
      show ?thesis
      proof (cases "py_slice buf i (i + 3) = [0, 0, 1]")
        case True
        then have e: "start_positions buf i = (i, 3) # start_positions buf (i + 3)"
          using inb n4 by (simp add: start_positions.simps [of buf i])
        show ?thesis
        proof (cases pre)
          case Nil
          with e "1.prems" show ?thesis by simp
        next
          case (Cons a pre')
          with e "1.prems" have "start_positions buf (i + 3) = pre' @ (p, l) # post" by simp
          then show ?thesis using "1.IH"(2) [OF inb n4 True] by simp
        qed
      next
        case False
        then have e: "start_positions buf i = start_positions buf (i + 1)"
          using inb n4 by (simp add: start_positions.simps [of buf i])
        with "1.prems" have "start_positions buf (i + 1) = pre @ (p, l) # post" by simp
        then show ?thesis using "1.IH"(3) [OF inb n4 False] by simp
      qed
    qed
  qed
qed


lemma start_positions_shift:
  "p \<le> k \<Longrightarrow>
     start_positions (drop p buf) (k - p) = map (\<lambda>(q, l). (q - p, l)) (start_positions buf k)"
proof (induction buf k rule: start_positions.induct)
  case (1 buf k)
  let ?d = "drop p buf"
  have c: "(k - p) + 3 < length ?d \<longleftrightarrow> k + 3 < length buf"
    using "1.prems" by auto
  have s: "py_slice ?d (k - p) (k - p + n) = py_slice buf k (k + n)" for n
    using "1.prems" by (simp add: py_slice_def take_drop add.commute)
  have i: "k - p + n = (k + n) - p" for n
    using "1.prems" by simp
  show ?case
  proof (cases "k + 3 < length buf")
    case False
    then show ?thesis
      using c by (simp add: start_positions.simps [of buf k]
          start_positions.simps [of ?d "k - p"])
  next
    case True
    note inb = True
    show ?thesis
    proof (cases "py_slice buf k (k + 4) = [0, 0, 0, 1]")
      case True
      have "start_positions buf k = (k, 4) # start_positions buf (k + 4)"
        using inb True by (simp add: start_positions.simps [of buf k])
      moreover have "start_positions ?d (k - p) = (k - p, 4) # start_positions ?d (k + 4 - p)"
        using inb True c s [of 4] i [of 4] by (simp add: start_positions.simps [of ?d "k - p"])
      moreover have "start_positions ?d (k + 4 - p)
                       = map (\<lambda>(q, l). (q - p, l)) (start_positions buf (k + 4))"
        using "1.IH"(1) [OF inb True] "1.prems" by simp
      ultimately show ?thesis by simp
    next
      case False
      note n4 = False
      show ?thesis
      proof (cases "py_slice buf k (k + 3) = [0, 0, 1]")
        case True
        have "start_positions buf k = (k, 3) # start_positions buf (k + 3)"
          using inb n4 True by (simp add: start_positions.simps [of buf k])
        moreover have "start_positions ?d (k - p) = (k - p, 3) # start_positions ?d (k + 3 - p)"
          using inb n4 True c s [of 4] s [of 3] i [of 3]
          by (simp add: start_positions.simps [of ?d "k - p"])
        moreover have "start_positions ?d (k + 3 - p)
                         = map (\<lambda>(q, l). (q - p, l)) (start_positions buf (k + 3))"
          using "1.IH"(2) [OF inb n4 True] "1.prems" by simp
        ultimately show ?thesis by simp
      next
        case False
        have "start_positions buf k = start_positions buf (k + 1)"
          using inb n4 False by (simp add: start_positions.simps [of buf k])
        moreover have "start_positions ?d (k - p) = start_positions ?d (k + 1 - p)"
          using inb n4 False c s [of 4] s [of 3] i [of 1]
          by (simp add: start_positions.simps [of ?d "k - p"])
        moreover have "start_positions ?d (k + 1 - p)
                         = map (\<lambda>(q, l). (q - p, l)) (start_positions buf (k + 1))"
          using "1.IH"(3) [OF inb n4 False] "1.prems" by simp
        ultimately show ?thesis by simp
      qed
    qed
  qed
qed

lemma spans_shift:
  assumes "\<forall>(q, l) \<in> set ms. p \<le> q"
  shows "spans (drop p buf) (map (\<lambda>(q, l). (q - p, l)) ms) = spans buf ms"
  using assms
proof (induction buf ms rule: spans.induct)
  case (1 buf a b rest)
  obtain qa la qb lb where ab: "a = (qa, la)" "b = (qb, lb)"
    by (cases a, cases b)
  with "1.prems" have "p \<le> qa" "p \<le> qb" by auto
  then have "py_slice (drop p buf) (qa - p) (qb - p) = py_slice buf qa qb"
    by (simp add: py_slice_def take_drop)
  with "1.IH" "1.prems" ab show ?case by simp
qed simp_all

lemma spans_prefix:
  assumes "\<forall>(q, l) \<in> set ms. q \<le> length buf"
  shows "spans (buf @ ys) ms = spans buf ms"
  using assms
proof (induction buf ms rule: spans.induct)
  case (1 buf a b rest)
  then show ?case by (auto simp: py_slice_def)
qed simp_all


lemma extract_kept_buffer:
  "length (start_positions (snd (extract_nal_units buf)) 0) < 2"
proof (cases "length (start_positions buf 0) < 2")
  case True
  then show ?thesis by (simp add: extract_nal_units_spans)
next
  case False
  let ?S = "start_positions buf 0"
  from False have ne: "?S \<noteq> []" by auto
  obtain p l where pl: "last ?S = (p, l)" by (cases "last ?S")
  have S: "?S = butlast ?S @ (p, l) # []"
    using ne pl by (metis append_butlast_last_id)
  have "start_positions buf p = [(p, l)]"
    using start_positions_resume [OF S] .
  then have "start_positions (drop p buf) 0 = [(0, l)]"
    using start_positions_shift [of p p buf] by simp
  then show ?thesis
    using False pl by (simp add: extract_nal_units_spans)
qed

lemma extract_nal_units_append:
  "extract_nal_units (buf @ ys) =
     (fst (extract_nal_units buf) @ fst (extract_nal_units (snd (extract_nal_units buf) @ ys)),
      snd (extract_nal_units (snd (extract_nal_units buf) @ ys)))"
proof (cases "length (start_positions buf 0) < 2")
  case True
  then show ?thesis by (simp add: extract_nal_units_spans)
next
  case False
  let ?S = "start_positions buf 0"
  let ?B = "buf @ ys"
  from False have ne: "?S \<noteq> []" by auto
  obtain p l where pl: "last ?S = (p, l)" by (cases "last ?S")
  have S: "?S = butlast ?S @ [(p, l)]"
    using ne pl by (metis append_butlast_last_id)
  have inS: "(p, l) \<in> set ?S"
    using ne pl by (metis last_in_set)
  have pb: "p + 3 < length buf"
    using start_positions_bounds [OF inS] by simp
  have ex: "extract_nal_units buf = (spans buf ?S, drop p buf)"
    using False pl by (simp add: extract_nal_units_spans)
  have dr: "drop p buf @ ys = drop p ?B"
    using pb by simp
  obtain T where T: "start_positions ?B 0 = ?S @ T"
    using start_positions_prefix [of buf ys 0] by blast
  then have S': "start_positions ?B 0 = butlast ?S @ (p, l) # T"
    using S by (metis append_Cons append_Nil append_assoc)
  have res: "start_positions ?B p = (p, l) # T"
    using start_positions_resume [OF S'] .
  have R: "start_positions (drop p ?B) 0 = map (\<lambda>(q, l). (q - p, l)) ((p, l) # T)"
    using start_positions_shift [of p p ?B] res by simp
  have geq: "\<forall>(q, l') \<in> set ((p, l) # T). p \<le> q"
    using start_positions_bounds [of _ _ ?B p] res by auto
  have leq: "\<forall>(q, l') \<in> set ?S. q \<le> length buf"
    using start_positions_bounds [of _ _ buf 0] by fastforce
  have "spans ?B (start_positions ?B 0) = spans ?B (butlast ?S @ [(p, l)]) @ spans ?B ((p, l) # T)"
    unfolding S' by (rule spans_append)
  also have "spans ?B (butlast ?S @ [(p, l)]) = spans buf ?S"
    using spans_prefix [OF leq, of ys] S by simp
  finally have sp: "spans ?B (start_positions ?B 0) = spans buf ?S @ spans ?B ((p, l) # T)" .
  have len: "\<not> length (start_positions ?B 0) < 2"
    using False T by simp
  show ?thesis
  proof (cases T)
    case Nil
    have "start_positions ?B 0 = ?S" using T Nil by simp
    then have "extract_nal_units ?B = (spans buf ?S, drop p ?B)"
      using sp Nil len pl by (simp add: extract_nal_units_spans)
    moreover have "extract_nal_units (drop p ?B) = ([], drop p ?B)"
      using R Nil by (simp add: extract_nal_units_spans)
    ultimately show ?thesis
      using ex dr by simp
  next
    case (Cons t T')
    obtain q lq where q: "last T = (q, lq)" by (cases "last T")
    have Tne: "T \<noteq> []" using Cons by simp
    have lastB: "last (start_positions ?B 0) = (q, lq)"
      using T Tne q by simp
    have "(q, lq) \<in> set ((p, l) # T)"
      using Tne q by (metis last_in_set list.set_intros(2))
    with geq have pq: "p \<le> q" by auto
    have eB: "extract_nal_units ?B = (spans buf ?S @ spans ?B ((p, l) # T), drop q ?B)"
      using sp len lastB by (simp add: extract_nal_units_spans)
    have lastR: "last (start_positions (drop p ?B) 0) = (q - p, lq)"
      using R Tne q by (simp add: last_map)
    have "extract_nal_units (drop p ?B)
            = (spans (drop p ?B) (map (\<lambda>(q, l). (q - p, l)) ((p, l) # T)),
               drop (q - p) (drop p ?B))"
      using R Tne lastR Cons by (simp add: extract_nal_units_spans)
    also have "spans (drop p ?B) (map (\<lambda>(q, l). (q - p, l)) ((p, l) # T)) = spans ?B ((p, l) # T)"
      by (rule spans_shift [OF geq])
    also have "drop (q - p) (drop p ?B) = drop q ?B"
      using pq by (simp del: drop_append)
    finally have "extract_nal_units (drop p ?B) = (spans ?B ((p, l) # T), drop q ?B)" .
    with eB ex dr show ?thesis by simp
  qed
qed

lemma feed_split_independent:
  assumes "length (start_positions buf 0) < 2"
  shows "feed buf chunks = extract_nal_units (buf @ concat chunks)"
  using assms
proof (induction chunks arbitrary: buf)
  case Nil
  then show ?case by (simp add: extract_nal_units_spans)
next
  case (Cons data rest)
  obtain units buf' where e: "extract_nal_units (buf @ data) = (units, buf')"
    by (cases "extract_nal_units (buf @ data)")
  have "length (start_positions buf' 0) < 2"
    using extract_kept_buffer [of "buf @ data"] e by simp
  then have ih: "feed buf' rest = extract_nal_units (buf' @ concat rest)"
    by (rule Cons.IH)
  have "extract_nal_units ((buf @ data) @ concat rest)
          = (units @ fst (extract_nal_units (buf' @ concat rest)),
             snd (extract_nal_units (buf' @ concat rest)))"
    using extract_nal_units_append [of "buf @ data" "concat rest"] e by simp
  with e ih show ?case
    by (simp add: case_prod_beta)
qed

lemma start_positions_marker:
  "(p, l) \<in> set (start_positions buf i) \<Longrightarrow>
     (l = 4 \<and> py_slice buf p (p + 4) = [0, 0, 0, 1]) \<or> (l = 3 \<and> py_slice buf p (p + 3) = [0, 0, 1])"
proof (induction buf i rule: start_positions.induct)
  case (1 buf i)
  show ?case
  proof (cases "i + 3 < length buf")
    case False
    with "1.prems" show ?thesis by (simp add: start_positions.simps [of buf i])
  next
    case True
    show ?thesis
      using "1.prems" "1.IH" True
      by (subst (asm) start_positions.simps) (auto split: if_splits)
  qed
qed

lemma length_spans: "length (spans buf ms) = length ms - 1"
  by (induction buf ms rule: spans.induct) simp_all

lemma feed_yields_spans:
  assumes "2 \<le> length (start_positions (concat chunks) 0)"
  shows "feed [] chunks =
           (spans (concat chunks) (start_positions (concat chunks) 0),
            drop (fst (last (start_positions (concat chunks) 0))) (concat chunks))"
    and "length (fst (feed [] chunks)) = length (start_positions (concat chunks) 0) - 1"
proof -
  have "length (start_positions [] 0) < 2"
    by (simp add: start_positions.simps [of "[]" 0])
  then have "feed [] chunks = extract_nal_units (concat chunks)"
    using feed_split_independent [of "[]" chunks] by simp
  then show "feed [] chunks =
           (spans (concat chunks) (start_positions (concat chunks) 0),
            drop (fst (last (start_positions (concat chunks) 0))) (concat chunks))"
    using assms by (simp add: extract_nal_units_spans)
  then show "length (fst (feed [] chunks)) = length (start_positions (concat chunks) 0) - 1"
    by (simp add: length_spans)
qed

subsection \<open>Unit types\<close>

lemma take3_not_take4:
  assumes "take 3 data = [0, 0, 1 :: byte]"
  shows "take 4 data \<noteq> [0, 0, 0, 1]"
proof
  assume a: "take 4 data = [0, 0, 0, 1]"
  have "take 3 (take 4 data) = take 3 data" by simp
  with a assms show False by simp
qed

text \<open>
  C2, as claimed, fails on a unit of four bytes: a 3-byte start code followed by the
  single byte \<open>0x67\<close>, whose low five bits are 7, is given type \<open>-1\<close> and is not an SPS,
  because \<open>_get_nal_type\<close> returns \<open>-1\<close> for any data shorter than five bytes.
\<close>

theorem short_unit_not_classified:
  "take 3 [0, 0, 1, 0x67 :: byte] = [0, 0, 1]
     \<and> uint ((0x67 :: byte) AND 0x1F) = 7
     \<and> get_nal_type [0, 0, 1, 0x67] = - 1
     \<and> \<not> is_sps [0, 0, 1, 0x67]"
  by (simp add: get_nal_type_def is_sps_def)

text \<open>
  C2 (amended). For every unit of at least five bytes that begins with a 4-byte or a
  3-byte start code, the type is the low five bits of the byte right after the start
  code; the unit is an SPS exactly when that value is 7, a PPS exactly when it is 8, a
  keyframe exactly when it is 5, and so none of the three for any other value.
\<close>

theorem nal_type_of_marked_unit:
  assumes "5 \<le> length data"
    and "(take 4 data = [0, 0, 0, 1] \<and> k = 4) \<or> (take 3 data = [0, 0, 1] \<and> k = 3)"
  shows "get_nal_type data = uint (data ! k AND 0x1F)
       \<and> (is_sps data \<longleftrightarrow> uint (data ! k AND 0x1F) = 7)
       \<and> (is_pps data \<longleftrightarrow> uint (data ! k AND 0x1F) = 8)
       \<and> (is_keyframe data \<longleftrightarrow> uint (data ! k AND 0x1F) = 5)"
proof -
  have "get_nal_type data = uint (data ! k AND 0x1F)"
    using assms take3_not_take4 [of data]
    by (auto simp: get_nal_type_def py_slice_def)
  then show ?thesis
    by (simp add: is_sps_def is_pps_def is_keyframe_def)
qed

theorem nal_type_of_marked_unit_witness:
  "get_nal_type [0, 0, 0, 1, 0x67] = 7 \<and> is_sps [0, 0, 0, 1, 0x67]
     \<and> \<not> is_pps [0, 0, 0, 1, 0x67] \<and> \<not> is_keyframe [0, 0, 0, 1, 0x67]"
  using nal_type_of_marked_unit [of "[0, 0, 0, 1, 0x67]" 4] by simp




subsection \<open>Fan-out and catch-up\<close>

lemma process_nal_unit_frame:
  "clients (process_nal_unit failing s u) = clients s"
  "touch_states (process_nal_unit failing s u) = touch_states s"
  "nal_buffer (process_nal_unit failing s u) = nal_buffer s"
  by (simp_all add: process_nal_unit_def Let_def)

lemma process_nal_unit_wire:
  "wire (process_nal_unit failing s u) c =
     (if c \<in> clients s \<and> c \<notin> failing then wire s c @ [Binary u] else wire s c)"
  by (simp add: process_nal_unit_def Let_def)

lemma process_nal_units_frame:
  "clients (fst (process_nal_units fl (s, n) us)) = clients s
     \<and> touch_states (fst (process_nal_units fl (s, n) us)) = touch_states s
     \<and> nal_buffer (fst (process_nal_units fl (s, n) us)) = nal_buffer s"
  by (induction us arbitrary: s n) (simp_all add: process_nal_unit_frame)

lemma process_nal_units_wire:
  assumes "c \<in> clients s" and "\<forall>k. c \<notin> fl k"
  shows "wire (fst (process_nal_units fl (s, n) us)) c = wire s c @ map Binary us"
  using assms
  by (induction us arbitrary: s n) (simp_all add: process_nal_unit_frame process_nal_unit_wire)





text \<open>
  C8, as claimed, fails: the fan-out only logs a failed send. Viewer 1, to which the
  send of a unit fails, is still in the fan-out set afterwards and its recorded
  pointer-down is still there.
\<close>

theorem failed_viewer_stays_in_fan_out:
  "1 \<in> clients (process_nal_unit {1}
        (store (client_join (world_at 0) (connected_bridge pixel) 1) 1
           \<lparr>start_pos = Some (1 / 2, 1 / 2), start_time = 0\<rparr>) [0, 0, 0, 1, 0x41, 0x9a])
   \<and> touch_states (process_nal_unit {1}
        (store (client_join (world_at 0) (connected_bridge pixel) 1) 1
           \<lparr>start_pos = Some (1 / 2, 1 / 2), start_time = 0\<rparr>) [0, 0, 0, 1, 0x41, 0x9a]) 1
       = Some \<lparr>start_pos = Some (1 / 2, 1 / 2), start_time = 0\<rparr>"
  by (simp add: process_nal_unit_def store_def client_join_def world_at_def connected_bridge_def
      deliver_def Let_def)

text \<open>
  C8 (amended). When sends fail during fan-out, the failure is logged and nothing else
  changes: the fan-out set and every viewer's pointer state stay as they were, and every
  admitted viewer \<open>c\<close> to which no send fails is sent that unit and all later units, in
  order. A viewer \<open>v\<close> leaves the fan-out set, and its pointer state is released, when its
  own connection handler ends.
\<close>

theorem send_failure_only_logged:
  assumes "c \<in> clients s" and "\<forall>k. c \<notin> fl k"
  shows "clients (fst (process_nal_units fl (s, n) us)) = clients s
       \<and> touch_states (fst (process_nal_units fl (s, n) us)) = touch_states s
       \<and> wire (fst (process_nal_units fl (s, n) us)) c = wire s c @ map Binary us
       \<and> v \<notin> clients (client_cleanup (fst (process_nal_units fl (s, n) us)) v)
       \<and> touch_states (client_cleanup (fst (process_nal_units fl (s, n) us)) v) v = None"
  using process_nal_units_frame [of fl s n us] process_nal_units_wire [OF assms, of n us]
  by (simp add: client_cleanup_def)

theorem send_failure_only_logged_witness:
  "clients (fst (process_nal_units (\<lambda>k. {1})
       (client_join (world_at 0) (client_join (world_at 0) (connected_bridge pixel) 1) 2, 0)
       [[0, 0, 0, 1, 0x41, 0x9a]])) = {1, 2}
   \<and> wire (fst (process_nal_units (\<lambda>k. {1})
       (client_join (world_at 0) (client_join (world_at 0) (connected_bridge pixel) 1) 2, 0)
       [[0, 0, 0, 1, 0x41, 0x9a]])) 2 = [Device_info_msg pixel, Binary [0, 0, 0, 1, 0x41, 0x9a]]
   \<and> 1 \<notin> clients (client_cleanup (fst (process_nal_units (\<lambda>k. {1})
       (client_join (world_at 0) (client_join (world_at 0) (connected_bridge pixel) 1) 2, 0)
       [[0, 0, 0, 1, 0x41, 0x9a]])) 1)"
proof -
  have c: "clients (client_join (world_at 0) (client_join (world_at 0) (connected_bridge pixel) 1) 2)
             = {1, 2}"
    by (auto simp: client_join_def world_at_def connected_bridge_def deliver_def Let_def)
  have w: "wire (client_join (world_at 0) (client_join (world_at 0) (connected_bridge pixel) 1) 2) 2
             = [Device_info_msg pixel]"
    by (simp add: client_join_def world_at_def connected_bridge_def deliver_def catch_up_def
        cached_def Let_def)
  show ?thesis
    using send_failure_only_logged [of 2
        "client_join (world_at 0) (client_join (world_at 0) (connected_bridge pixel) 1) 2"
        "\<lambda>k. {1}" 0 "[[0, 0, 0, 1, 0x41, 0x9a]]" 1] c w
    by simp
qed

subsection \<open>Gestures\<close>

lemma sqrt_2500: "sqrt (1 / 2500) = 1 / 50"
  by (rule real_sqrt_unique) (simp_all add: power2_eq_square)

text \<open>
  C4, as claimed, fails: down at (0.5, 0.5) at time 0 and up at (0.52, 0.5) at time
  0.05 does not issue the tap at the up-position (pixel (561, 1170) of a 1080x2340
  screen).
\<close>

theorem small_fast_drift_not_tap:
  "snd (send_touch (world_at (1 / 20))
          (fst (send_touch (world_at 0) (connected_bridge pixel) 1 (JStr ''down'') (1 / 2) (1 / 2)))
          1 (JStr ''up'') (13 / 25) (1 / 2)) \<noteq> [Tap 561 1170]"
  by (simp add: send_touch_def store_def connected_bridge_def world_at_def pixel_def
      TOUCH_TIMEOUT_def SWIPE_VELOCITY_THRESHOLD_def SWIPE_DISTANCE_THRESHOLD_def
      SWIPE_MAX_TAP_DURATION_def py_int_def sqrt_2500 Let_def)

text \<open>
  C4 (amended). A pointer-down at (0.5, 0.5) followed by a pointer-up at (0.52, 0.5)
  after 0.05 s is below the distance threshold but not the velocity threshold: its
  velocity is 0.02 / 0.05 = 0.4, above 0.3, so it is classified as a swipe, and a swipe
  command from the down-position to the up-position over 200 ms is issued. The same
  pair after 0.1 s (velocity 0.2) is below both thresholds and issues a tap at the
  up-position.
\<close>

theorem small_fast_drift_is_swipe:
  "snd (send_touch (world_at (1 / 20))
          (fst (send_touch (world_at 0) (connected_bridge pixel) 1 (JStr ''down'') (1 / 2) (1 / 2)))
          1 (JStr ''up'') (13 / 25) (1 / 2)) = [Swipe 540 1170 561 1170 200]
   \<and> sqrt ((13 / 25 - 1 / 2) * (13 / 25 - 1 / 2) + (1 / 2 - 1 / 2) * (1 / 2 - 1 / 2)) / (1 / 20)
       = 4 / 10
   \<and> snd (send_touch (world_at (1 / 10))
          (fst (send_touch (world_at 0) (connected_bridge pixel) 1 (JStr ''down'') (1 / 2) (1 / 2)))
          1 (JStr ''up'') (13 / 25) (1 / 2)) = [Tap 561 1170]"
  by (simp add: send_touch_def store_def connected_bridge_def world_at_def pixel_def
      TOUCH_TIMEOUT_def SWIPE_VELOCITY_THRESHOLD_def SWIPE_DISTANCE_THRESHOLD_def
      SWIPE_MAX_TAP_DURATION_def py_int_def sqrt_2500 Let_def)

text \<open>
  C6, as claimed, fails: a pointer-down at (0.5, 0.5) at time 6, arriving while a
  pointer-down recorded at time 0 is still unresolved, is not recorded in its place.
\<close>

theorem stale_down_not_recorded:
  "touch_states (fst (send_touch (world_at 6)
       (store (connected_bridge pixel) 1 \<lparr>start_pos = Some (1 / 10, 1 / 10), start_time = 0\<rparr>)
       1 (JStr ''down'') (1 / 2) (1 / 2))) 1
     \<noteq> Some \<lparr>start_pos = Some (1 / 2, 1 / 2), start_time = 6\<rparr>"
  by (simp add: send_touch_def store_def connected_bridge_def world_at_def TOUCH_TIMEOUT_def)

text \<open>
  C6 (amended). When a pointer event with valid coordinates (a pointer-down included)
  arrives for a viewer whose recorded unresolved pointer-down is older than 5 s, the
  stale position is discarded without issuing any command and the arriving event is not
  processed: a pointer-down is not recorded, and the viewer is left with no recorded
  position.
\<close>

theorem stale_touch_discards_event:
  assumes "device_info s = Some d"
    and "0 \<le> x \<and> x \<le> 1 \<and> 0 \<le> y \<and> y \<le> 1"
    and "touch_states s client = Some t"
    and "start_pos t = Some p"
    and "clock_check w - start_time t > 5"
  shows "snd (send_touch w s client action x y) = []
       \<and> touch_states (fst (send_touch w s client action x y)) client
           = Some (t\<lparr>start_pos := None\<rparr>)"
  using assms by (simp add: send_touch_def store_def TOUCH_TIMEOUT_def Let_def)

theorem stale_touch_discards_event_witness:
  "snd (send_touch (world_at 6)
          (store (connected_bridge pixel) 1 \<lparr>start_pos = Some (1 / 10, 1 / 10), start_time = 0\<rparr>)
          1 (JStr ''down'') (1 / 2) (1 / 2)) = []
   \<and> touch_states (fst (send_touch (world_at 6)
          (store (connected_bridge pixel) 1 \<lparr>start_pos = Some (1 / 10, 1 / 10), start_time = 0\<rparr>)
          1 (JStr ''down'') (1 / 2) (1 / 2))) 1 = Some \<lparr>start_pos = None, start_time = 0\<rparr>"
  using stale_touch_discards_event [of
      "store (connected_bridge pixel) 1 \<lparr>start_pos = Some (1 / 10, 1 / 10), start_time = 0\<rparr>"
      pixel "1 / 2" "1 / 2" 1 "\<lparr>start_pos = Some (1 / 10, 1 / 10), start_time = 0\<rparr>"
      "(1 / 10, 1 / 10)" "world_at 6" "JStr ''down''"]
  by (simp add: store_def connected_bridge_def world_at_def)

text \<open>
  A call of \<open>_send_touch\<close> with x or y outside [0, 1] issues no command and leaves the
  whole bridge state, the viewer's recorded pointer state included, as it was, whatever
  the action.
\<close>

lemma invalid_coordinates_ignored:
  assumes "\<not> (0 \<le> x \<and> x \<le> 1 \<and> 0 \<le> y \<and> y \<le> 1)"
  shows "send_touch w s client action x y = (s, [])"
  by (simp only: send_touch_def assms if_False if_cancel)

lemma invalid_coordinates_ignored_example:
  "send_touch (world_at 1)
       (store (connected_bridge pixel) 1 \<lparr>start_pos = Some (1 / 2, 1 / 2), start_time = 0\<rparr>)
       1 (JStr ''up'') (3 / 2) (1 / 2)
     = (store (connected_bridge pixel) 1 \<lparr>start_pos = Some (1 / 2, 1 / 2), start_time = 0\<rparr>, [])"
  using invalid_coordinates_ignored [of "3 / 2" "1 / 2"] by simp

subsection \<open>Inbound messages\<close>

text \<open>
  What the handler does drop: text that is not JSON, an object whose type is none of the
  known ones, and a touch message lacking its action or its x.
\<close>

lemma caught_or_unknown_messages_dropped:
  "handle_control_message w s client None = Inr (s, [Warning JSONDecodeError])"
  "map_of d ''type'' = Some (JStr t) \<Longrightarrow>
     t \<notin> {''touch'', ''key'', ''back'', ''home'', ''recents'', ''chat'', ''cancel'', ''new_session''} \<Longrightarrow>
     handle_control_message w s client (Some (JObj d)) = Inr (s, [])"
  "map_of d ''type'' = Some (JStr ''touch'') \<Longrightarrow>
     map_of d ''action'' = None \<or> map_of d ''x'' = None \<Longrightarrow>
     handle_control_message w s client (Some (JObj d)) = Inr (s, [Warning KeyError])"
  by (auto simp: handle_control_message_def dispatch_def split: option.splits)

text \<open>
  A touch message that carries an action and numbers for x and y, both small enough to
  convert to a double, with x or y outside [0, 1], is dropped by the handler: no
  command, the bridge state as it was.
\<close>

lemma out_of_range_touch_dropped:
  assumes "map_of d ''type'' = Some (JStr ''touch'')"
    and "map_of d ''action'' = Some a"
    and "map_of d ''x'' = Some (JNum x)" and "map_of d ''y'' = Some (JNum y)"
    and "\<bar>x\<bar> < 2 ^ 1024 - 2 ^ 970" and "\<bar>y\<bar> < 2 ^ 1024 - 2 ^ 970"
    and "\<not> (0 \<le> x \<and> x \<le> 1 \<and> 0 \<le> y \<and> y \<le> 1)"
  shows "handle_control_message w s client (Some (JObj d)) = Inr (s, [])"
proof -
  have "send_touch w s client a x y = (s, [])"
    using assms(7) by (rule invalid_coordinates_ignored)
  moreover have "format_3f (JNum x) = None" and "format_3f (JNum y) = None"
    using assms(5,6) by simp_all
  ultimately show ?thesis
    using assms(1-4) by (simp add: handle_control_message_def dispatch_def)
qed

text \<open>
  C10. A touch message whose x or y lies outside [0, 1] should issue no command and
  leave the viewer's recorded pointer state as it was. For x = 1.5 that is what happens.
  For x the integer \<open>2 ^ 1024\<close> the handler's log line formats x with \<open>:.3f\<close> before
  \<open>_send_touch\<close> is reached; the conversion to a double raises \<open>OverflowError\<close>, which
  the handler does not catch, so the viewer's connection handler ends, its \<open>finally\<close>
  block discards the recorded pointer-down, and the \<open>home\<close> message that follows is
  never handled.
\<close>

theorem huge_coordinate_ends_handler:
  "handle_control_message (world_at 1)
       (store (connected_bridge pixel) 1 \<lparr>start_pos = Some (1 / 2, 1 / 2), start_time = 0\<rparr>) 1
       (Some (JObj [(''type'', JStr ''touch''), (''action'', JStr ''move''),
                    (''x'', JNum (3 / 2)), (''y'', JNum (1 / 2))]))
     = Inr (store (connected_bridge pixel) 1 \<lparr>start_pos = Some (1 / 2, 1 / 2), start_time = 0\<rparr>, [])
   \<and> handle_control_message (world_at 1)
       (store (connected_bridge pixel) 1 \<lparr>start_pos = Some (1 / 2, 1 / 2), start_time = 0\<rparr>) 1
       (Some (JObj [(''type'', JStr ''touch''), (''action'', JStr ''move''),
                    (''x'', JNum (2 ^ 1024)), (''y'', JNum (1 / 2))]))
     = Inl (OverflowError,
            store (connected_bridge pixel) 1 \<lparr>start_pos = Some (1 / 2, 1 / 2), start_time = 0\<rparr>)
   \<and> fst (client_messages
            (store (connected_bridge pixel) 1 \<lparr>start_pos = Some (1 / 2, 1 / 2), start_time = 0\<rparr>) 1
            [(world_at 1, Some (JObj [(''type'', JStr ''touch''), (''action'', JStr ''move''),
                                      (''x'', JNum (2 ^ 1024)), (''y'', JNum (1 / 2))])),
             (world_at 1, Some (JObj [(''type'', JStr ''home'')]))]) = Some OverflowError
   \<and> touch_states (fst (snd (client_messages
            (store (connected_bridge pixel) 1 \<lparr>start_pos = Some (1 / 2, 1 / 2), start_time = 0\<rparr>) 1
            [(world_at 1, Some (JObj [(''type'', JStr ''touch''), (''action'', JStr ''move''),
                                      (''x'', JNum (2 ^ 1024)), (''y'', JNum (1 / 2))])),
             (world_at 1, Some (JObj [(''type'', JStr ''home'')]))]))) 1 = None
   \<and> snd (snd (client_messages
            (store (connected_bridge pixel) 1 \<lparr>start_pos = Some (1 / 2, 1 / 2), start_time = 0\<rparr>) 1
            [(world_at 1, Some (JObj [(''type'', JStr ''touch''), (''action'', JStr ''move''),
                                      (''x'', JNum (2 ^ 1024)), (''y'', JNum (1 / 2))])),
             (world_at 1, Some (JObj [(''type'', JStr ''home'')]))])) = []"
  by (simp add: handle_control_message_def dispatch_def send_touch_def client_cleanup_def
      store_def connected_bridge_def world_at_def)

text \<open>
  C7. A malformed message should be dropped with the connection left open. The handler
  catches only \<open>JSONDecodeError\<close> and \<open>KeyError\<close>: JSON that is not an object (here the
  empty array) raises \<open>AttributeError\<close> at \<open>data.get\<close>, and a touch message whose x is a
  string raises \<open>ValueError\<close> at the \<open>:.3f\<close> format. Either exception leaves the handler
  and ends the viewer's connection handler, so the \<open>home\<close> message that follows is never
  handled. Text that is not JSON, an unknown type and a touch without coordinates are
  dropped and the \<open>home\<close> message after them is handled.
\<close>

theorem ill_typed_message_ends_handler:
  "fst (client_messages (connected_bridge pixel) 1
          [(world_at 0, Some (JArr [])),
           (world_at 0, Some (JObj [(''type'', JStr ''home'')]))]) = Some AttributeError
   \<and> snd (snd (client_messages (connected_bridge pixel) 1
          [(world_at 0, Some (JArr [])),
           (world_at 0, Some (JObj [(''type'', JStr ''home'')]))])) = []
   \<and> fst (client_messages (connected_bridge pixel) 1
          [(world_at 0, Some (JObj [(''type'', JStr ''touch''), (''action'', JStr ''down''),
                                     (''x'', JStr ''0.5''), (''y'', JNum (1 / 2))])),
           (world_at 0, Some (JObj [(''type'', JStr ''home'')]))]) = Some ValueError
   \<and> client_messages (connected_bridge pixel) 1
          [(world_at 0, None),
           (world_at 0, Some (JObj [(''type'', JStr ''nonsense'')])),
           (world_at 0, Some (JObj [(''type'', JStr ''touch''), (''action'', JStr ''down'')])),
           (world_at 0, Some (JObj [(''type'', JStr ''home'')]))]
       = (None, connected_bridge pixel,
          [Warning JSONDecodeError, Warning KeyError, Command (Key_event (JNum 3))])"
  by (simp add: handle_control_message_def dispatch_def client_cleanup_def connected_bridge_def)

end
